theory Spec2Isabelle
  imports Complex_Main "HOL-Library.Sublist"
begin

section \<open>JSON values\<close>

text \<open>
  Tool arguments, message content blocks, the collected onboarding data and the schema
  object literal are all plain JavaScript values.  They are modelled by one datatype.
  An object is an association list, so that the insertion order of its properties
  (which \<^verbatim>\<open>JSON.stringify\<close> follows) is kept.  Numbers are rationals; the text that
  JavaScript prints for a number is a parameter of the functions that need it.
  Strings are lists of bytes.
\<close>

datatype json =
    JNull
  | JBool bool
  | JNumber rat
  | JString string
  | JArray "json list"
  | JObject "(string \<times> json) list"

subsection \<open>\<^verbatim>\<open>JSON.stringify\<close>\<close>

definition LF :: char where
  "LF = CHR 0x0A"

definition hexDigit :: "nat \<Rightarrow> char" where
  "hexDigit n = ''0123456789abcdef'' ! n"

definition quoteChar :: "char \<Rightarrow> string" where
  "quoteChar c =
     (let n = (of_char c :: nat) in
      if n = 8 then [CHR 0x5C, CHR ''b'']
      else if n = 9 then [CHR 0x5C, CHR ''t'']
      else if n = 10 then [CHR 0x5C, CHR ''n'']
      else if n = 12 then [CHR 0x5C, CHR ''f'']
      else if n = 13 then [CHR 0x5C, CHR ''r'']
      else if n = 34 then [CHR 0x5C, CHR 0x22]
      else if n = 92 then [CHR 0x5C, CHR 0x5C]
      else if n < 32 then
        [CHR 0x5C, CHR ''u'', CHR ''0'', CHR ''0'', hexDigit (n div 16), hexDigit (n mod 16)]
      else [c])"

definition quoteJSONString :: "string \<Rightarrow> string" where
  "quoteJSONString s = [CHR 0x22] @ concat (map quoteChar s) @ [CHR 0x22]"

fun intercalate :: "string \<Rightarrow> string list \<Rightarrow> string" where
  "intercalate sep [] = []"
| "intercalate sep [x] = x"
| "intercalate sep (x # y # ys) = x @ sep @ intercalate sep (y # ys)"

text \<open>
  The members of an object or array between their brackets: nothing for an empty one,
  separated by commas when no indentation is asked for (\<open>gap\<close> empty), one per line
  at the deeper indentation otherwise.
\<close>

definition wrap :: "string \<Rightarrow> string \<Rightarrow> string \<Rightarrow> string \<Rightarrow> string list \<Rightarrow> string" where
  "wrap opening closing gap indent partial =
     (if partial = [] then opening @ closing
      else if gap = [] then opening @ intercalate '','' partial @ closing
      else opening @ [LF] @ (indent @ gap)
             @ intercalate ('','' @ [LF] @ indent @ gap) partial
             @ [LF] @ indent @ closing)"

text \<open>
  \<open>stringify numberText gap indent v\<close> is \<^verbatim>\<open>JSON.stringify(v)\<close> for \<open>gap = []\<close> and
  \<^verbatim>\<open>JSON.stringify(v, null, 2)\<close> for a gap of two spaces, both started at an empty
  \<open>indent\<close>.
\<close>

fun stringify :: "(rat \<Rightarrow> string) \<Rightarrow> string \<Rightarrow> string \<Rightarrow> json \<Rightarrow> string" where
  "stringify numberText gap indent JNull = ''null''"
| "stringify numberText gap indent (JBool b) = (if b then ''true'' else ''false'')"
| "stringify numberText gap indent (JNumber r) = numberText r"
| "stringify numberText gap indent (JString s) = quoteJSONString s"
| "stringify numberText gap indent (JArray xs) =
     wrap ''['' '']'' gap indent (map (stringify numberText gap (indent @ gap)) xs)"
| "stringify numberText gap indent (JObject kvs) =
     wrap ''{'' ''}'' gap indent
       (map (\<lambda>(k, v). quoteJSONString k @ '':'' @ (if gap = [] then [] else '' '')
                        @ stringify numberText gap (indent @ gap) v) kvs)"

section \<open>The schema of the onboarding record (onboardInstructor.ts)\<close>

text \<open>
  The object literal \<^verbatim>\<open>onboardInstructorEssentialsSchema\<close>, property by property and in
  the order of the source.
\<close>

definition onboardInstructorEssentialsSchema :: json where
  "onboardInstructorEssentialsSchema =
     JObject [
       (''type'', JString ''object''),
       (''properties'', JObject [
          (''businessName'', JObject [(''type'', JString ''string'')]),
          (''firstServices'', JObject [
             (''type'', JString ''object''),
             (''properties'', JObject [
                (''serviceName'', JObject [(''type'', JString ''string'')]),
                (''price'', JObject [(''type'', JString ''number'')]),
                (''priceCurrency'', JObject [(''type'', JString ''string'')]),
                (''durationInMinutes'', JObject [(''type'', JString ''number'')])]),
             (''required'', JArray [JString ''serviceName'', JString ''price'',
                                    JString ''priceCurrency'', JString ''durationInMinutes'']),
             (''additionalProperties'', JBool False)]),
          (''businessHours'', JObject [
             (''type'', JString ''array''),
             (''items'', JObject [
                (''type'', JString ''object''),
                (''properties'', JObject [
                   (''startTime24hr'', JObject [(''type'', JString ''string'')]),
                   (''endTime24hr'', JObject [(''type'', JString ''string'')]),
                   (''dayOfWeek'', JObject [
                      (''type'', JString ''string''),
                      (''enum'', JArray [JString ''Monday'', JString ''Tuesday'',
                                         JString ''Wednesday'', JString ''Thursday'',
                                         JString ''Friday'', JString ''Saturday'',
                                         JString ''Sunday''])])]),
                (''required'', JArray [JString ''startTime24hr'', JString ''endTime24hr'',
                                       JString ''dayOfWeek'']),
                (''additionalProperties'', JBool False)])]),
          (''yourEmailAddress'', JObject [(''type'', JString ''string''),
                                          (''format'', JString ''email'')]),
          (''doYouWantUsToTakePaymentsDirectlyFromYourCustomers'',
             JObject [(''type'', JString ''boolean'')])]),
       (''required'', JArray [JString ''businessName'', JString ''firstServices'',
                              JString ''businessHours'', JString ''yourEmailAddress'',
                              JString ''doYouWantUsToTakePaymentsDirectlyFromYourCustomers'']),
       (''additionalProperties'', JBool False)]"

subsection \<open>Validation against a schema\<close>

text \<open>
  Modelled from the spec: the validator that the tool wrapper of the tool library applies
  to a tool's input is not part of the source; only the schema handed to it is.  The spec
  says that the action "is described to the completion service via a schema (required
  fields, types, enumerated day-of-week values, email format, no additional properties)"
  and that its payload is validated against that schema.  \<open>validate\<close> gives each of these
  keywords its JSON Schema meaning (\<open>hasType\<close> is the meaning of a type name):
  \<open>type\<close>, \<open>enum\<close> and \<open>format\<close> constrain the value itself, \<open>required\<close>, \<open>properties\<close> and \<open>additionalProperties\<close> constrain objects,
  \<open>items\<close> constrains the elements of arrays, and a keyword that is absent constrains
  nothing.  What a named format accepts is the parameter \<open>formatOk\<close>.
\<close>

definition hasType :: "string \<Rightarrow> json \<Rightarrow> bool" where
  "hasType t v =
     (if t = ''object'' then (case v of JObject _ \<Rightarrow> True | _ \<Rightarrow> False)
      else if t = ''array'' then (case v of JArray _ \<Rightarrow> True | _ \<Rightarrow> False)
      else if t = ''string'' then (case v of JString _ \<Rightarrow> True | _ \<Rightarrow> False)
      else if t = ''number'' then (case v of JNumber _ \<Rightarrow> True | _ \<Rightarrow> False)
      else if t = ''integer'' then
        (case v of JNumber r \<Rightarrow> snd (quotient_of r) = 1 | _ \<Rightarrow> False)
      else if t = ''boolean'' then (case v of JBool _ \<Rightarrow> True | _ \<Rightarrow> False)
      else if t = ''null'' then (case v of JNull \<Rightarrow> True | _ \<Rightarrow> False)
      else False)"

function (sequential) validate :: "(string \<Rightarrow> string \<Rightarrow> bool) \<Rightarrow> json \<Rightarrow> json \<Rightarrow> bool" where
  "validate formatOk (JObject ks) v =
     ((case map_of ks ''type'' of Some (JString t) \<Rightarrow> hasType t v | _ \<Rightarrow> True) \<and>
      (case map_of ks ''enum'' of Some (JArray es) \<Rightarrow> v \<in> set es | _ \<Rightarrow> True) \<and>
      (case (map_of ks ''format'', v) of
         (Some (JString f), JString s) \<Rightarrow> formatOk f s
       | _ \<Rightarrow> True) \<and>
      (case (map_of ks ''required'', v) of
         (Some (JArray rs), JObject kvs) \<Rightarrow> list_all (\<lambda>r. r \<in> JString ` fst ` set kvs) rs
       | _ \<Rightarrow> True) \<and>
      (case (map_of ks ''properties'', v) of
         (Some (JObject ps), JObject kvs) \<Rightarrow>
            list_all (\<lambda>(n, x). case map_of ps n of Some s \<Rightarrow> validate formatOk s x
                                | None \<Rightarrow> True) kvs
       | _ \<Rightarrow> True) \<and>
      (case (map_of ks ''additionalProperties'', v) of
         (Some (JBool False), JObject kvs) \<Rightarrow>
            list_all (\<lambda>(n, x). n \<in> fst ` set (case map_of ks ''properties'' of
                                                 Some (JObject ps) \<Rightarrow> ps | _ \<Rightarrow> [])) kvs
       | _ \<Rightarrow> True) \<and>
      (case (map_of ks ''items'', v) of
         (Some s, JArray xs) \<Rightarrow> list_all (validate formatOk s) xs
       | _ \<Rightarrow> True))"
| "validate formatOk _ v = True"
  by pat_completeness auto
termination
proof -
  have lookup: "size v < Suc (size_list (size_prod (\<lambda>_. 0) size) ks)"
    if "map_of ks k = Some v" for ks :: "(string \<times> json) list" and k v
    using that by (induction ks) (auto split: if_splits)
  have direct: "size s < Suc (size_list (size_prod (\<lambda>_. 0) size) ks)"
    if "Some s = map_of ks k" for ks :: "(string \<times> json) list" and k s
    using lookup [of ks k s] that by simp
  have nested: "size s < Suc (size_list (size_prod (\<lambda>_. 0) size) ks)"
    if "Some (JObject ps) = map_of ks k" and "map_of ps n = Some s"
    for ks ps :: "(string \<times> json) list" and k n s
    using lookup [of ks k "JObject ps"] lookup [of ps n s] that by simp
  show ?thesis
    by (relation "measure (\<lambda>(F, s, v). size s)") (auto intro: direct nested)
qed

section \<open>The tool-calling entry point: the \<open>complete\<close> tool\<close>

datatype error =
    ServiceFailure string
  | TypeError
  | GraphRecursionError
  | ToolInputParsingException
  | ToolNotFound string
  | UnknownNode string

text \<open>
  The tool \<^verbatim>\<open>onboardingCompleted\<close>, named \<^verbatim>\<open>complete\<close>: the wrapper validates the input
  against the schema and raises on a violation; the body sets the module-level flag
  \<^verbatim>\<open>isCompleted\<close> and returns its input.  The flag is passed in and returned.
\<close>

definition onboardingCompleted ::
  "(string \<Rightarrow> string \<Rightarrow> bool) \<Rightarrow> json \<Rightarrow> bool \<Rightarrow> (error + json) \<times> bool" where
  "onboardingCompleted formatOk input isCompleted =
     (if validate formatOk onboardInstructorEssentialsSchema input
      then (Inr input, True)
      else (Inl ToolInputParsingException, isCompleted))"


text \<open>
  What the claims about the payload speak of: the names of the properties of an object,
  the values stored under a name, the elements of an array, and the four lists of names
  that the schema spells out.
\<close>

definition propertyNames :: "json \<Rightarrow> string list" where
  "propertyNames v = (case v of JObject kvs \<Rightarrow> map fst kvs | _ \<Rightarrow> [])"

definition propertyValues :: "json \<Rightarrow> string \<Rightarrow> json list" where
  "propertyValues v k =
     (case v of JObject kvs \<Rightarrow> map snd (filter (\<lambda>kv. fst kv = k) kvs) | _ \<Rightarrow> [])"

definition elements :: "json \<Rightarrow> json list" where
  "elements v = (case v of JArray xs \<Rightarrow> xs | _ \<Rightarrow> [])"

definition requiredFields :: "string list" where
  "requiredFields = [''businessName'', ''firstServices'', ''businessHours'',
                     ''yourEmailAddress'',
                     ''doYouWantUsToTakePaymentsDirectlyFromYourCustomers'']"

definition serviceFields :: "string list" where
  "serviceFields = [''serviceName'', ''price'', ''priceCurrency'', ''durationInMinutes'']"

definition hoursFields :: "string list" where
  "hoursFields = [''startTime24hr'', ''endTime24hr'', ''dayOfWeek'']"

definition dayNames :: "string list" where
  "dayNames = [''Monday'', ''Tuesday'', ''Wednesday'', ''Thursday'', ''Friday'',
               ''Saturday'', ''Sunday'']"

text \<open>The two nested object schemas of the literal, named for the proofs.\<close>

definition firstServicesSchema :: json where
  "firstServicesSchema =
     JObject [
       (''type'', JString ''object''),
       (''properties'', JObject [
          (''serviceName'', JObject [(''type'', JString ''string'')]),
          (''price'', JObject [(''type'', JString ''number'')]),
          (''priceCurrency'', JObject [(''type'', JString ''string'')]),
          (''durationInMinutes'', JObject [(''type'', JString ''number'')])]),
       (''required'', JArray [JString ''serviceName'', JString ''price'',
                              JString ''priceCurrency'', JString ''durationInMinutes'']),
       (''additionalProperties'', JBool False)]"

definition hoursForDaySchema :: json where
  "hoursForDaySchema =
     JObject [
       (''type'', JString ''object''),
       (''properties'', JObject [
          (''startTime24hr'', JObject [(''type'', JString ''string'')]),
          (''endTime24hr'', JObject [(''type'', JString ''string'')]),
          (''dayOfWeek'', JObject [
             (''type'', JString ''string''),
             (''enum'', JArray [JString ''Monday'', JString ''Tuesday'',
                                JString ''Wednesday'', JString ''Thursday'',
                                JString ''Friday'', JString ''Saturday'',
                                JString ''Sunday''])])]),
       (''required'', JArray [JString ''startTime24hr'', JString ''endTime24hr'',
                              JString ''dayOfWeek'']),
       (''additionalProperties'', JBool False)]"

text \<open>The payload of the spec's own scenario.\<close>

definition examplePayload :: json where
  "examplePayload =
     JObject [
       (''businessName'', JString ''Acme Cuts''),
       (''firstServices'', JObject [
          (''serviceName'', JString ''Haircut''),
          (''durationInMinutes'', JNumber 30),
          (''price'', JNumber 20),
          (''priceCurrency'', JString ''USD'')]),
       (''businessHours'', JArray [
          JObject [(''startTime24hr'', JString ''09:00''),
                   (''endTime24hr'', JString ''17:00''),
                   (''dayOfWeek'', JString ''Monday'')]]),
       (''yourEmailAddress'', JString ''a@b.com''),
       (''doYouWantUsToTakePaymentsDirectlyFromYourCustomers'', JBool True)]"

section \<open>JavaScript strings and objects\<close>

text \<open>
  The string methods the two programs call.  Strings are byte lists, so only the ASCII
  letters change case and only the ASCII white space is trimmed; no character outside
  ASCII lowers to one of the letters of \<^verbatim>\<open>exit\<close>.
\<close>

definition lowerChar :: "char \<Rightarrow> char" where
  "lowerChar c =
     (let n = (of_char c :: nat) in if 65 \<le> n \<and> n \<le> 90 then char_of (n + 32) else c)"

definition toLowerCase :: "string \<Rightarrow> string" where
  "toLowerCase s = map lowerChar s"

fun includesString :: "string \<Rightarrow> string \<Rightarrow> bool" where
  "includesString [] sub = (sub = [])"
| "includesString (c # cs) sub = (prefix sub (c # cs) \<or> includesString cs sub)"

fun splitOn :: "char \<Rightarrow> string \<Rightarrow> string list" where
  "splitOn sep [] = [ []]"
| "splitOn sep (c # cs) =
     (if c = sep then [] # splitOn sep cs
      else (case splitOn sep cs of [] \<Rightarrow> [ [c]] | x # xs \<Rightarrow> (c # x) # xs))"

definition isWhiteSpace :: "char \<Rightarrow> bool" where
  "isWhiteSpace c = ((of_char c :: nat) \<in> {9, 10, 11, 12, 13, 32})"

definition trim :: "string \<Rightarrow> string" where
  "trim s = rev (dropWhile isWhiteSpace (rev (dropWhile isWhiteSpace s)))"

text \<open>
  A property read \<^verbatim>\<open>o.k\<close> is \<open>map_of o k\<close>, with \<open>None\<close> for \<^verbatim>\<open>undefined\<close>;
  \<open>truthy\<close> is the test an \<^verbatim>\<open>if\<close> or \<^verbatim>\<open>&&\<close> applies to it.  \<open>spread prev next\<close> is the
  object \<^verbatim>\<open>{ ...prev, ...next }\<close>: a name already there keeps its place and takes the
  new value, a new name goes to the end.
\<close>

fun truthy :: "json option \<Rightarrow> bool" where
  "truthy None = False"
| "truthy (Some JNull) = False"
| "truthy (Some (JBool b)) = b"
| "truthy (Some (JNumber r)) = (r \<noteq> 0)"
| "truthy (Some (JString s)) = (s \<noteq> [])"
| "truthy (Some (JArray xs)) = True"
| "truthy (Some (JObject kvs)) = True"

definition assign :: "(string \<times> json) list \<Rightarrow> string \<times> json \<Rightarrow> (string \<times> json) list" where
  "assign obj kv =
     (if fst kv \<in> fst ` set obj then map (\<lambda>p. if fst p = fst kv then kv else p) obj
      else obj @ [kv])"

definition spread :: "(string \<times> json) list \<Rightarrow> (string \<times> json) list \<Rightarrow> (string \<times> json) list" where
  "spread prev next = foldl assign prev next"

section \<open>Messages, the completion service, the conversation\<close>

datatype content = Text string | Blocks "json list"

datatype tool_call = ToolCall (call_name: string) (call_args: json)

datatype message =
    SystemMessage string
  | HumanMessage string
  | AIMessage content "tool_call list"
  | ToolMessage string "error + json"

text \<open>
  The completion service is opaque: given the message list it either fails or answers
  with the content and the tool calls of one assistant message.
\<close>

type_synonym completion = "message list \<Rightarrow> error + content \<times> tool_call list"

text \<open>
  The state of the graph is kept per thread by the checkpointer, so each
  \<^verbatim>\<open>app.invoke\<close> continues from the state the previous one left.  \<open>invocations\<close> is not
  a variable of the programs: it records, in order, the argument of every
  \<^verbatim>\<open>model.invoke\<close>.  Console output of the replies and the local array
  \<^verbatim>\<open>conversationHistory\<close>, which is written and never read, are left out.
\<close>

record conversation =
  messages :: "message list"
  invocations :: "message list list"

datatype outcome = Exited | Completed | Crashed error | InputClosed

text \<open>The handler of \<^verbatim>\<open>main().catch\<close>: what it writes to the error console.\<close>

fun errorLog :: "outcome \<Rightarrow> (string \<times> error) list" where
  "errorLog (Crashed e) = [(''An error occurred:'', e)]"
| "errorLog _ = []"

definition recursionLimit :: nat where
  "recursionLimit = 25"

definition isSystem :: "message \<Rightarrow> bool" where
  "isSystem m = (case m of SystemMessage _ \<Rightarrow> True | _ \<Rightarrow> False)"

section \<open>The string-matching entry point (onboarding-chatbot.ts)\<close>

record chatbot_state = conversation +
  onboardingData :: "(string \<times> json) list"

text \<open>The two reducers of \<^verbatim>\<open>StateAnnotation\<close>, applied to an update of both channels.\<close>

definition chatbot_reduce ::
  "chatbot_state \<Rightarrow> message list \<times> (string \<times> json) list \<Rightarrow> chatbot_state" where
  "chatbot_reduce state update =
     state\<lparr>messages := messages state @ fst update,
           onboardingData := spread (onboardingData state) (snd update)\<rparr>"

definition chatbot_shouldContinue :: "chatbot_state \<Rightarrow> string" where
  "chatbot_shouldContinue state =
     (let data = onboardingData state in
      if truthy (map_of data ''businessName'') \<and>
         truthy (map_of data ''firstServices'') \<and>
         truthy (map_of data ''businessHours'') \<and>
         map_of data ''yourEmailAddress'' \<noteq> None \<and>
         map_of data ''doYouWantUsToTakePaymentsDirectlyFromYourCustomers'' \<noteq> None
      then ''__end__''
      else ''__end__'')"

definition chatbot_systemMessage :: "(rat \<Rightarrow> string) \<Rightarrow> (string \<times> json) list \<Rightarrow> message" where
  "chatbot_systemMessage numberText data =
     SystemMessage (intercalate [LF] [
       ''You are an onboarding assistant for a business management platform. Your task is to collect the following information from the user:'',
       [],
       ''1. Business name'',
       ''2. First service details (name, price, currency, duration in minutes)'',
       ''3. Business hours for each day of the week'',
       ''4. Email address'',
       ''5. Whether they want us to take payments directly from customers'',
       [],
       ''Current progress:'',
       stringify numberText ''  '' [] (JObject data),
       [],
       ''Please ask for any missing information one at a time. Be conversational and friendly.''])"

definition contentString :: "(rat \<Rightarrow> string) \<Rightarrow> content \<Rightarrow> string" where
  "contentString numberText c =
     (case c of Text s \<Rightarrow> s | Blocks bs \<Rightarrow> stringify numberText [] [] (JArray bs))"

text \<open>
  \<^verbatim>\<open>contentString.split(':')[1].trim()\<close> raises a TypeError when the split has no second
  piece.
\<close>

definition parseResponseForData ::
  "(rat \<Rightarrow> string) \<Rightarrow> content \<Rightarrow> error + (string \<times> json) list" where
  "parseResponseForData numberText c =
     (let s = contentString numberText c in
      if includesString s ''business name'' \<and> includesString s '':''
      then (case splitOn (CHR '':'') s of
              _ # piece # _ \<Rightarrow> Inr [(''businessName'', JString (trim piece))]
            | _ \<Rightarrow> Inl TypeError)
      else Inr [])"

definition chatbot_callModel ::
  "(rat \<Rightarrow> string) \<Rightarrow> completion \<Rightarrow> chatbot_state
    \<Rightarrow> (error + message list \<times> (string \<times> json) list) \<times> chatbot_state" where
  "chatbot_callModel numberText model state =
     (let modelMessages = chatbot_systemMessage numberText (onboardingData state) # messages state;
          state' = state\<lparr>invocations := invocations state @ [modelMessages]\<rparr>
      in case model modelMessages of
           Inl e \<Rightarrow> (Inl e, state')
         | Inr (c, calls) \<Rightarrow>
             (case parseResponseForData numberText c of
                Inl e \<Rightarrow> (Inl e, state')
              | Inr newData \<Rightarrow> (Inr ([AIMessage c calls], newData), state')))"

text \<open>
  The compiled graph: the node \<^verbatim>\<open>agent\<close> with the conditional edge
  \<^verbatim>\<open>shouldContinue\<close>, run from a node for at most \<open>fuel\<close> steps (the recursion limit
  of the graph library).
\<close>

fun chatbot_workflow ::
  "(rat \<Rightarrow> string) \<Rightarrow> completion \<Rightarrow> nat \<Rightarrow> string \<Rightarrow> chatbot_state
    \<Rightarrow> error option \<times> chatbot_state" where
  "chatbot_workflow numberText model 0 node state =
     (if node = ''__end__'' then (None, state) else (Some GraphRecursionError, state))"
| "chatbot_workflow numberText model (Suc fuel) node state =
     (if node = ''__end__'' then (None, state)
      else if node = ''agent'' then
        (case chatbot_callModel numberText model state of
           (Inl e, state') \<Rightarrow> (Some e, state')
         | (Inr update, state') \<Rightarrow>
             (let state'' = chatbot_reduce state' update
              in chatbot_workflow numberText model fuel (chatbot_shouldContinue state'') state''))
      else (Some (UnknownNode node), state))"

text \<open>
  \<^verbatim>\<open>app.invoke(input, config)\<close>: the input goes through the reducers, then the edge
  from \<^verbatim>\<open>__start__\<close> leads to \<^verbatim>\<open>agent\<close>.
\<close>

definition chatbot_invoke ::
  "(rat \<Rightarrow> string) \<Rightarrow> completion \<Rightarrow> chatbot_state \<Rightarrow> message list \<times> (string \<times> json) list
    \<Rightarrow> error option \<times> chatbot_state" where
  "chatbot_invoke numberText model state input =
     chatbot_workflow numberText model recursionLimit ''agent'' (chatbot_reduce state input)"

text \<open>
  The loop of \<^verbatim>\<open>main\<close> over the lines the user types.  When the input is used up the
  prompt is never answered.
\<close>

fun chatbot_loop ::
  "(rat \<Rightarrow> string) \<Rightarrow> completion \<Rightarrow> chatbot_state \<Rightarrow> string list \<Rightarrow> outcome \<times> chatbot_state" where
  "chatbot_loop numberText model state [] = (InputClosed, state)"
| "chatbot_loop numberText model state (userMessage # rest) =
     (if toLowerCase userMessage = ''exit'' then (Exited, state)
      else (case chatbot_invoke numberText model state ([HumanMessage userMessage], []) of
              (Some e, state') \<Rightarrow> (Crashed e, state')
            | (None, state') \<Rightarrow> chatbot_loop numberText model state' rest))"

definition chatbot_initial :: chatbot_state where
  "chatbot_initial = \<lparr>messages = [], invocations = [], onboardingData = []\<rparr>"

definition chatbot_main ::
  "(rat \<Rightarrow> string) \<Rightarrow> completion \<Rightarrow> string list \<Rightarrow> outcome \<times> chatbot_state" where
  "chatbot_main numberText model input = chatbot_loop numberText model chatbot_initial input"

section \<open>The tool-calling entry point (onboardInstructor.ts)\<close>

record instructor_state = conversation +
  isCompleted :: bool

definition instructor_reduce :: "instructor_state \<Rightarrow> message list \<Rightarrow> instructor_state" where
  "instructor_reduce state update = state\<lparr>messages := messages state @ update\<rparr>"

definition lastMessage :: "message list \<Rightarrow> message option" where
  "lastMessage ms = (if ms = [] then None else Some (last ms))"

text \<open>Reading a property of the last message raises a TypeError when there is none.\<close>

definition instructor_shouldContinue :: "instructor_state \<Rightarrow> error + string" where
  "instructor_shouldContinue state =
     (case lastMessage (messages state) of
        None \<Rightarrow> Inl TypeError
      | Some (AIMessage c calls) \<Rightarrow> Inr (if calls \<noteq> [] then ''tools'' else ''__end__'')
      | Some _ \<Rightarrow> Inr ''__end__'')"

text \<open>The schema literal holds no number, so the text of a number plays no part here.\<close>

definition instructor_systemMessage :: message where
  "instructor_systemMessage =
     SystemMessage (intercalate [LF] [
       [],
       ''You are an onboarding assistant for a business management platform.'',
       ''Your task is to collect the information from the user, based on the following schema:'',
       [],
       stringify (\<lambda>r. []) ''  '' [] onboardInstructorEssentialsSchema,
       [],
       ''Please ask for any missing information one at a time.'',
       ''Don't follow user question not related to onboarding.'',
       ''Be conversational, short but friendly.''])"

definition instructor_callModel ::
  "completion \<Rightarrow> instructor_state \<Rightarrow> (error + message list) \<times> instructor_state" where
  "instructor_callModel model state =
     (let modelMessages = instructor_systemMessage # messages state;
          state' = state\<lparr>invocations := invocations state @ [modelMessages]\<rparr>
      in case model modelMessages of
           Inl e \<Rightarrow> (Inl e, state')
         | Inr (c, calls) \<Rightarrow> (Inr [AIMessage c calls], state'))"

text \<open>
  The prebuilt tool node over \<^verbatim>\<open>[onboardingCompleted]\<close>: every tool call of the last
  assistant message is looked up by name and run in order; what a tool raises is caught
  and becomes the content of its tool message.
\<close>

fun runTools ::
  "(string \<Rightarrow> string \<Rightarrow> bool) \<Rightarrow> tool_call list \<Rightarrow> bool \<Rightarrow> message list \<times> bool" where
  "runTools formatOk [] flag = ([], flag)"
| "runTools formatOk (call # calls) flag =
     (let (result, flag') =
            (if call_name call = ''complete''
             then onboardingCompleted formatOk (call_args call) flag
             else (Inl (ToolNotFound (call_name call)), flag));
          (rest, flag'') = runTools formatOk calls flag'
      in (ToolMessage (call_name call) result # rest, flag''))"

definition toolNodeForGraph ::
  "(string \<Rightarrow> string \<Rightarrow> bool) \<Rightarrow> instructor_state \<Rightarrow> (error + message list) \<times> instructor_state" where
  "toolNodeForGraph formatOk state =
     (case lastMessage (messages state) of
        Some (AIMessage c calls) \<Rightarrow>
          (let (outputs, flag) = runTools formatOk calls (isCompleted state)
           in (Inr outputs, state\<lparr>isCompleted := flag\<rparr>))
      | _ \<Rightarrow> (Inl TypeError, state))"

text \<open>
  The compiled graph: \<^verbatim>\<open>agent\<close> with the conditional edge \<^verbatim>\<open>shouldContinue\<close>, and
  \<^verbatim>\<open>tools\<close> with its edge to the end.
\<close>

fun instructor_workflow ::
  "(string \<Rightarrow> string \<Rightarrow> bool) \<Rightarrow> completion \<Rightarrow> nat \<Rightarrow> string \<Rightarrow> instructor_state
    \<Rightarrow> error option \<times> instructor_state" where
  "instructor_workflow formatOk model 0 node state =
     (if node = ''__end__'' then (None, state) else (Some GraphRecursionError, state))"
| "instructor_workflow formatOk model (Suc fuel) node state =
     (if node = ''__end__'' then (None, state)
      else if node = ''agent'' then
        (case instructor_callModel model state of
           (Inl e, state') \<Rightarrow> (Some e, state')
         | (Inr update, state') \<Rightarrow>
             (let state'' = instructor_reduce state' update
              in case instructor_shouldContinue state'' of
                   Inl e \<Rightarrow> (Some e, state'')
                 | Inr next \<Rightarrow> instructor_workflow formatOk model fuel next state''))
      else if node = ''tools'' then
        (case toolNodeForGraph formatOk state of
           (Inl e, state') \<Rightarrow> (Some e, state')
         | (Inr update, state') \<Rightarrow>
             instructor_workflow formatOk model fuel ''__end__'' (instructor_reduce state' update))
      else (Some (UnknownNode node), state))"

definition instructor_invoke ::
  "(string \<Rightarrow> string \<Rightarrow> bool) \<Rightarrow> completion \<Rightarrow> instructor_state \<Rightarrow> message list
    \<Rightarrow> error option \<times> instructor_state" where
  "instructor_invoke formatOk model state input =
     instructor_workflow formatOk model recursionLimit ''agent'' (instructor_reduce state input)"

fun instructor_loop ::
  "(string \<Rightarrow> string \<Rightarrow> bool) \<Rightarrow> completion \<Rightarrow> instructor_state \<Rightarrow> string list
    \<Rightarrow> outcome \<times> instructor_state" where
  "instructor_loop formatOk model state [] = (InputClosed, state)"
| "instructor_loop formatOk model state (userMessage # rest) =
     (if toLowerCase userMessage = ''exit'' then (Exited, state)
      else (case instructor_invoke formatOk model state [HumanMessage userMessage] of
              (Some e, state') \<Rightarrow> (Crashed e, state')
            | (None, state') \<Rightarrow>
                if isCompleted state' then (Completed, state')
                else instructor_loop formatOk model state' rest))"

definition instructor_initial :: instructor_state where
  "instructor_initial = \<lparr>messages = [], invocations = [], isCompleted = False\<rparr>"

text \<open>\<^verbatim>\<open>main\<close>: the seed invocation, then the loop.\<close>

definition instructor_main ::
  "(string \<Rightarrow> string \<Rightarrow> bool) \<Rightarrow> completion \<Rightarrow> string list \<Rightarrow> outcome \<times> instructor_state" where
  "instructor_main formatOk model input =
     (case instructor_invoke formatOk model instructor_initial [HumanMessage ''Start onboarding''] of
        (Some e, state) \<Rightarrow> (Crashed e, state)
      | (None, state) \<Rightarrow> instructor_loop formatOk model state input)"

section \<open>Notions for the statements and their proofs\<close>

definition noSystem :: "message list \<Rightarrow> bool" where
  "noSystem ms = list_all (\<lambda>m. \<not> isSystem m) ms"

text \<open>One \<^verbatim>\<open>app.invoke\<close> of the tool-calling graph.\<close>

definition instructor_call :: "instructor_state \<Rightarrow> message list \<Rightarrow> message list" where
  "instructor_call s input = instructor_systemMessage # messages s @ input"

text \<open>One \<^verbatim>\<open>app.invoke\<close> of the string-matching graph.\<close>

definition chatbot_call ::
  "(rat \<Rightarrow> string) \<Rightarrow> chatbot_state \<Rightarrow> message list \<times> (string \<times> json) list \<Rightarrow> message list" where
  "chatbot_call nt s input =
     chatbot_systemMessage nt (spread (onboardingData s) (snd input)) # messages s @ fst input"

text \<open>
  The shape of what has been sent: every recorded invocation is one system message
  accepted by \<open>P\<close>, followed by system-free messages that open the present transcript.
\<close>

definition sentOk :: "(message \<Rightarrow> bool) \<Rightarrow> message list list \<Rightarrow> message list \<Rightarrow> bool" where
  "sentOk P calls transcript \<longleftrightarrow>
     noSystem transcript \<and>
     (\<forall>c \<in> set calls. \<exists>m h. c = m # h \<and> P m \<and> isSystem m \<and> noSystem h \<and> prefix h transcript)"

text \<open>
  Failing fast: as long as the loop runs every invocation recorded so far was answered,
  and a crash is the failure of the invocation recorded last.
\<close>

definition served :: "completion \<Rightarrow> message list list \<Rightarrow> bool" where
  "served M cs \<longleftrightarrow> (\<forall>c \<in> set cs. \<forall>e. M c \<noteq> Inl e)"

definition failFast :: "completion \<Rightarrow> outcome \<Rightarrow> message list list \<Rightarrow> bool" where
  "failFast M out cs \<longleftrightarrow>
     (case out of
        Crashed e \<Rightarrow> (\<exists>cs' c. cs = cs' @ [c] \<and> served M cs' \<and> M c = Inl e)
      | _ \<Rightarrow> served M cs)"

definition failingModel :: completion where
  "failingModel ms =
     (if length ms < 3 then Inr (Text ''Hello'', []) else Inl (ServiceFailure ''overloaded''))"

definition anyFormat :: "string \<Rightarrow> string \<Rightarrow> bool" where
  "anyFormat f s = True"

definition noNumberText :: "rat \<Rightarrow> string" where
  "noNumberText r = []"

definition eagerModel :: completion where
  "eagerModel ms = Inr (Blocks [], [ToolCall ''complete'' examplePayload])"

definition namingModel :: completion where
  "namingModel ms = Inr (Text ''business name: Acme'', [])"

section \<open>Validation of the payload of the \<open>complete\<close> tool\<close>

lemma schema_factored:
  "onboardInstructorEssentialsSchema =
     JObject [
       (''type'', JString ''object''),
       (''properties'', JObject [
          (''businessName'', JObject [(''type'', JString ''string'')]),
          (''firstServices'', firstServicesSchema),
          (''businessHours'', JObject [(''type'', JString ''array''),
                                       (''items'', hoursForDaySchema)]),
          (''yourEmailAddress'', JObject [(''type'', JString ''string''),
                                          (''format'', JString ''email'')]),
          (''doYouWantUsToTakePaymentsDirectlyFromYourCustomers'',
             JObject [(''type'', JString ''boolean'')])]),
       (''required'', JArray [JString ''businessName'', JString ''firstServices'',
                              JString ''businessHours'', JString ''yourEmailAddress'',
                              JString ''doYouWantUsToTakePaymentsDirectlyFromYourCustomers'']),
       (''additionalProperties'', JBool False)]"
  by (simp add: onboardInstructorEssentialsSchema_def firstServicesSchema_def
        hoursForDaySchema_def)

text \<open>What each keyword of an object schema demands of a value that passes.\<close>

lemma validate_type:
  "validate F (JObject ks) v \<Longrightarrow> map_of ks ''type'' = Some (JString t) \<Longrightarrow> hasType t v"
  by simp

lemma validate_enum:
  "validate F (JObject ks) v \<Longrightarrow> map_of ks ''enum'' = Some (JArray es) \<Longrightarrow> v \<in> set es"
  by simp

lemma validate_required:
  "validate F (JObject ks) (JObject kvs) \<Longrightarrow> map_of ks ''required'' = Some (JArray rs)
    \<Longrightarrow> JString r \<in> set rs \<Longrightarrow> r \<in> fst ` set kvs"
  by (auto simp: list_all_iff)

lemma validate_properties:
  "validate F (JObject ks) (JObject kvs) \<Longrightarrow> (n, x) \<in> set kvs
    \<Longrightarrow> map_of ks ''properties'' = Some (JObject ps) \<Longrightarrow> map_of ps n = Some s
    \<Longrightarrow> validate F s x"
  by (auto simp: list_all_iff)

lemma validate_additionalProperties:
  "validate F (JObject ks) (JObject kvs) \<Longrightarrow> (n, x) \<in> set kvs
    \<Longrightarrow> map_of ks ''additionalProperties'' = Some (JBool False)
    \<Longrightarrow> map_of ks ''properties'' = Some (JObject ps) \<Longrightarrow> n \<in> fst ` set ps"
  by (auto simp: list_all_iff)

lemma validate_items:
  "validate F (JObject ks) (JArray xs) \<Longrightarrow> x \<in> set xs \<Longrightarrow> map_of ks ''items'' = Some s
    \<Longrightarrow> validate F s x"
  by (auto simp: list_all_iff)

lemma hasType_object: "hasType ''object'' v \<Longrightarrow> \<exists>kvs. v = JObject kvs"
  by (cases v) (simp_all add: hasType_def)

text \<open>The same for the schema of the record and a payload that passes.\<close>

lemma payload_object:
  assumes "validate F onboardInstructorEssentialsSchema p"
  shows "\<exists>kvs. p = JObject kvs"
proof -
  from assms have "hasType ''object'' p"
    unfolding schema_factored by (rule validate_type) simp
  then show ?thesis by (rule hasType_object)
qed

lemma payload_required:
  assumes "validate F onboardInstructorEssentialsSchema p" and "k \<in> set requiredFields"
  shows "k \<in> set (propertyNames p)"
proof -
  from payload_object [OF assms(1)] obtain kvs where p: "p = JObject kvs" by blast
  have "k \<in> fst ` set kvs"
    using assms(1) unfolding schema_factored p
  proof (rule validate_required)
    show "JString k \<in> set [JString ''businessName'', JString ''firstServices'',
            JString ''businessHours'', JString ''yourEmailAddress'',
            JString ''doYouWantUsToTakePaymentsDirectlyFromYourCustomers'']"
      using assms(2) by (auto simp: requiredFields_def)
  qed simp
  then show ?thesis by (simp add: p propertyNames_def)
qed

lemma payload_closed:
  assumes "validate F onboardInstructorEssentialsSchema p" and "k \<in> set (propertyNames p)"
  shows "k \<in> set requiredFields"
proof -
  from payload_object [OF assms(1)] obtain kvs where p: "p = JObject kvs" by blast
  from assms(2) obtain x where "(k, x) \<in> set kvs"
    by (auto simp: p propertyNames_def)
  with assms(1) [unfolded schema_factored p]
  have "k \<in> fst ` set [
          (''businessName'', JObject [(''type'', JString ''string'')]),
          (''firstServices'', firstServicesSchema),
          (''businessHours'', JObject [(''type'', JString ''array''),
                                       (''items'', hoursForDaySchema)]),
          (''yourEmailAddress'', JObject [(''type'', JString ''string''),
                                          (''format'', JString ''email'')]),
          (''doYouWantUsToTakePaymentsDirectlyFromYourCustomers'',
             JObject [(''type'', JString ''boolean'')])]"
    by (rule validate_additionalProperties, simp, simp)
  then show ?thesis by (simp add: requiredFields_def)
qed

lemma payload_firstServices:
  assumes "validate F onboardInstructorEssentialsSchema p"
    and "s \<in> set (propertyValues p ''firstServices'')"
  shows "validate F firstServicesSchema s"
proof -
  from payload_object [OF assms(1)] obtain kvs where p: "p = JObject kvs" by blast
  from assms(2) have "(''firstServices'', s) \<in> set kvs"
    by (auto simp: p propertyValues_def)
  with assms(1) [unfolded schema_factored p] show ?thesis
    by (rule validate_properties, simp, simp)
qed

lemma payload_businessHours:
  assumes "validate F onboardInstructorEssentialsSchema p"
    and "hs \<in> set (propertyValues p ''businessHours'')"
    and "e \<in> set (elements hs)"
  shows "validate F hoursForDaySchema e"
proof -
  from payload_object [OF assms(1)] obtain kvs where p: "p = JObject kvs" by blast
  from assms(2) have "(''businessHours'', hs) \<in> set kvs"
    by (auto simp: p propertyValues_def)
  with assms(1) [unfolded schema_factored p]
  have hs: "validate F (JObject [(''type'', JString ''array''), (''items'', hoursForDaySchema)]) hs"
    by (rule validate_properties, simp, simp)
  from assms(3) obtain xs where xs: "hs = JArray xs" and e: "e \<in> set xs"
    by (cases hs) (auto simp: elements_def)
  from hs [unfolded xs] e show ?thesis
    by (rule validate_items) simp_all
qed

lemma service_closed:
  assumes "validate F firstServicesSchema s" and "k \<in> set (propertyNames s)"
  shows "k \<in> set serviceFields"
proof -
  from assms(2) obtain kvs x where s: "s = JObject kvs" and "(k, x) \<in> set kvs"
    by (cases s) (auto simp: propertyNames_def)
  with assms(1) [unfolded firstServicesSchema_def s]
  have "k \<in> fst ` set [
          (''serviceName'', JObject [(''type'', JString ''string'')]),
          (''price'', JObject [(''type'', JString ''number'')]),
          (''priceCurrency'', JObject [(''type'', JString ''string'')]),
          (''durationInMinutes'', JObject [(''type'', JString ''number'')])]"
    by - (rule validate_additionalProperties, assumption, assumption, simp, simp)
  then show ?thesis by (simp add: serviceFields_def)
qed

lemma hours_closed:
  assumes "validate F hoursForDaySchema e" and "k \<in> set (propertyNames e)"
  shows "k \<in> set hoursFields"
proof -
  from assms(2) obtain kvs x where e: "e = JObject kvs" and "(k, x) \<in> set kvs"
    by (cases e) (auto simp: propertyNames_def)
  with assms(1) [unfolded hoursForDaySchema_def e]
  have "k \<in> fst ` set [
          (''startTime24hr'', JObject [(''type'', JString ''string'')]),
          (''endTime24hr'', JObject [(''type'', JString ''string'')]),
          (''dayOfWeek'', JObject [
             (''type'', JString ''string''),
             (''enum'', JArray [JString ''Monday'', JString ''Tuesday'',
                                JString ''Wednesday'', JString ''Thursday'',
                                JString ''Friday'', JString ''Saturday'',
                                JString ''Sunday''])])]"
    by - (rule validate_additionalProperties, assumption, assumption, simp, simp)
  then show ?thesis by (simp add: hoursFields_def)
qed

lemma hours_dayOfWeek:
  assumes "validate F hoursForDaySchema e" and "d \<in> set (propertyValues e ''dayOfWeek'')"
  shows "d \<in> JString ` set dayNames"
proof -
  from assms(2) obtain kvs where e: "e = JObject kvs" and "(''dayOfWeek'', d) \<in> set kvs"
    by (cases e) (auto simp: propertyValues_def)
  with assms(1) [unfolded hoursForDaySchema_def e]
  have "validate F (JObject [
             (''type'', JString ''string''),
             (''enum'', JArray [JString ''Monday'', JString ''Tuesday'',
                                JString ''Wednesday'', JString ''Thursday'',
                                JString ''Friday'', JString ''Saturday'',
                                JString ''Sunday''])]) d"
    by - (rule validate_properties, assumption, assumption, simp, simp)
  then have "d \<in> set [JString ''Monday'', JString ''Tuesday'',
                                JString ''Wednesday'', JString ''Thursday'',
                                JString ''Friday'', JString ''Saturday'',
                                JString ''Sunday'']"
    by (rule validate_enum) simp
  then show ?thesis by (simp add: dayNames_def)
qed

text \<open>The payload of the spec's scenario passes, whenever its address passes as an email.\<close>

lemma examplePayload_valid:
  "validate F onboardInstructorEssentialsSchema examplePayload = F ''email'' ''a@b.com''"
  by (simp add: onboardInstructorEssentialsSchema_def examplePayload_def hasType_def)

text \<open>
  C1.  The \<open>complete\<close> tool rejects every payload that lacks one of the five required
  top-level fields, that has a top-level property beyond them, that has a property beyond
  the four declared ones inside \<open>firstServices\<close> or beyond the three declared ones inside
  an entry of \<open>businessHours\<close>, or that has an entry of \<open>businessHours\<close> whose
  \<open>dayOfWeek\<close> is not one of the seven day names: validation fails, the tool raises and
  the completion flag is left as it was.
\<close>

theorem complete_rejects_invalid_payload:
  assumes "(\<exists>k \<in> set requiredFields. k \<notin> set (propertyNames p))
         \<or> (\<exists>k \<in> set (propertyNames p). k \<notin> set requiredFields)
         \<or> (\<exists>s \<in> set (propertyValues p ''firstServices'').
               \<exists>k \<in> set (propertyNames s). k \<notin> set serviceFields)
         \<or> (\<exists>hs \<in> set (propertyValues p ''businessHours''). \<exists>e \<in> set (elements hs).
               \<exists>k \<in> set (propertyNames e). k \<notin> set hoursFields)
         \<or> (\<exists>hs \<in> set (propertyValues p ''businessHours''). \<exists>e \<in> set (elements hs).
               \<exists>d \<in> set (propertyValues e ''dayOfWeek''). d \<notin> JString ` set dayNames)"
  shows "\<not> validate formatOk onboardInstructorEssentialsSchema p
       \<and> onboardingCompleted formatOk p flag = (Inl ToolInputParsingException, flag)"
proof -
  have "\<not> validate formatOk onboardInstructorEssentialsSchema p"
  proof
    assume v: "validate formatOk onboardInstructorEssentialsSchema p"
    from assms show False
      using payload_required [OF v] payload_closed [OF v]
        service_closed [OF payload_firstServices [OF v]]
        hours_closed [OF payload_businessHours [OF v]]
        hours_dayOfWeek [OF payload_businessHours [OF v]]
      by blast
  qed
  then show ?thesis by (simp add: onboardingCompleted_def)
qed

theorem complete_rejects_invalid_payload_witness:
  "(\<exists>hs \<in> set (propertyValues
        (JObject [(''businessName'', JString ''Acme Cuts''),
                  (''businessHours'', JArray [JObject [(''dayOfWeek'', JString ''Funday'')]])])
        ''businessHours'').
      \<exists>e \<in> set (elements hs).
        \<exists>d \<in> set (propertyValues e ''dayOfWeek''). d \<notin> JString ` set dayNames)
   \<and> onboardingCompleted (\<lambda>f s. True)
        (JObject [(''businessName'', JString ''Acme Cuts''),
                  (''businessHours'', JArray [JObject [(''dayOfWeek'', JString ''Funday'')]])])
        False
      = (Inl ToolInputParsingException, False)"
proof -
  have h: "\<exists>hs \<in> set (propertyValues
        (JObject [(''businessName'', JString ''Acme Cuts''),
                  (''businessHours'', JArray [JObject [(''dayOfWeek'', JString ''Funday'')]])])
        ''businessHours'').
      \<exists>e \<in> set (elements hs).
        \<exists>d \<in> set (propertyValues e ''dayOfWeek''). d \<notin> JString ` set dayNames"
    by (simp add: propertyValues_def elements_def dayNames_def)
  from h complete_rejects_invalid_payload [of _ "\<lambda>f s. True" False] show ?thesis
    by blast
qed

section \<open>Strings\<close>

text \<open>Lower-casing maps exactly the two cases of a letter to its lower case.\<close>

lemma char_code: "\<exists>n. c = char_of n \<and> n < (256::nat)"
proof (intro exI conjI)
  show "c = char_of (of_char c :: nat)" by simp
  show "(of_char c :: nat) < 256" by (rule nat_of_char_less_256)
qed

lemma char_of_inj:
  "a < 256 \<Longrightarrow> b < 256 \<Longrightarrow> (char_of a = (char_of b :: char)) = (a = (b::nat))"
  by (simp add: char_of_eq_iff take_bit_eq_mod)

lemma of_char_of_small: "n < 256 \<Longrightarrow> of_char (char_of n :: char) = (n::nat)"
  by (simp add: take_bit_eq_mod)

lemma lowerChar_eq:
  fixes k :: nat
  assumes "97 \<le> k" "k \<le> 122"
  shows "lowerChar c = char_of k \<longleftrightarrow> c = char_of k \<or> c = char_of (k - 32)"
proof -
  from char_code [of c] obtain n :: nat where c: "c = char_of n" and n: "n < 256" by blast
  show ?thesis
  proof (cases "65 \<le> n \<and> n \<le> 90")
    case True
    then have "lowerChar c = char_of (n + 32)"
      by (simp add: lowerChar_def c of_char_of_small n)
    moreover have "(char_of (n + 32) = (char_of k :: char)) = (n + 32 = k)"
      using True assms by (intro char_of_inj) simp_all
    moreover have "(char_of n = (char_of k :: char)) = (n = k)"
      using n assms by (intro char_of_inj) simp_all
    moreover have "(char_of n = (char_of (k - 32) :: char)) = (n = k - 32)"
      using n assms by (intro char_of_inj) simp_all
    ultimately show ?thesis using True assms unfolding c by auto
  next
    case False
    then have l: "lowerChar c = c"
      by (auto simp add: lowerChar_def c of_char_of_small n)
    have "(char_of n = (char_of (k - 32) :: char)) = (n = k - 32)"
      using n assms by (intro char_of_inj) simp_all
    with False assms show ?thesis unfolding l unfolding c by auto
  qed
qed

lemma toLowerCase_exit_iff:
  "toLowerCase l = ''exit'' \<longleftrightarrow>
     (\<exists>a b c d. l = [a, b, c, d] \<and> a \<in> {CHR ''e'', CHR ''E''} \<and> b \<in> {CHR ''x'', CHR ''X''}
        \<and> c \<in> {CHR ''i'', CHR ''I''} \<and> d \<in> {CHR ''t'', CHR ''T''})"
proof -
  have e: "CHR ''e'' = char_of (101::nat)" "CHR ''E'' = char_of (101 - 32 ::nat)"
          "CHR ''x'' = char_of (120::nat)" "CHR ''X'' = char_of (120 - 32 ::nat)"
          "CHR ''i'' = char_of (105::nat)" "CHR ''I'' = char_of (105 - 32 ::nat)"
          "CHR ''t'' = char_of (116::nat)" "CHR ''T'' = char_of (116 - 32 ::nat)"
    by code_simp+
  have "map lowerChar l = ''exit'' \<longleftrightarrow>
     (\<exists>a b c d. l = [a, b, c, d] \<and> lowerChar a = CHR ''e'' \<and> lowerChar b = CHR ''x''
        \<and> lowerChar c = CHR ''i'' \<and> lowerChar d = CHR ''t'')"
    by (auto simp: map_eq_Cons_conv)
  also have "\<dots> \<longleftrightarrow> (\<exists>a b c d. l = [a, b, c, d] \<and> a \<in> {CHR ''e'', CHR ''E''}
        \<and> b \<in> {CHR ''x'', CHR ''X''} \<and> c \<in> {CHR ''i'', CHR ''I''} \<and> d \<in> {CHR ''t'', CHR ''T''})"
    unfolding e
    by (simp only: lowerChar_eq [of 101] lowerChar_eq [of 120] lowerChar_eq [of 105]
          lowerChar_eq [of 116] insert_iff empty_iff) simp
  finally show ?thesis unfolding toLowerCase_def .
qed

lemma toLowerCase_exit: "toLowerCase ''exit'' = ''exit''"
  by (simp add: toLowerCase_exit_iff)


lemma toLowerCase_hi: "toLowerCase ''hi'' \<noteq> ''exit''"
  by (simp add: toLowerCase_exit_iff)

lemma toLowerCase_there: "toLowerCase ''there'' \<noteq> ''exit''"
  by (simp add: toLowerCase_exit_iff)

lemma includesString_iff: "includesString s sub \<longleftrightarrow> (\<exists>p q. s = p @ sub @ q)"
proof (induction s)
  case Nil
  then show ?case by auto
next
  case (Cons c cs)
  show ?case
  proof
    assume "includesString (c # cs) sub"
    then consider "prefix sub (c # cs)" | "includesString cs sub" by auto
    then show "\<exists>p q. c # cs = p @ sub @ q"
    proof cases
      case 1
      then obtain q where "c # cs = sub @ q" by (auto simp: prefix_def)
      then have "c # cs = [] @ sub @ q" by simp
      then show ?thesis by blast
    next
      case 2
      with Cons.IH obtain p q where "cs = p @ sub @ q" by blast
      then have "c # cs = (c # p) @ sub @ q" by simp
      then show ?thesis by blast
    qed
  next
    assume "\<exists>p q. c # cs = p @ sub @ q"
    then obtain p q where pq: "c # cs = p @ sub @ q" by blast
    show "includesString (c # cs) sub"
    proof (cases p)
      case Nil
      with pq have "prefix sub (c # cs)" by (simp add: prefix_def)
      then show ?thesis by simp
    next
      case (Cons a p')
      with pq have "cs = p' @ sub @ q" by simp
      with Cons.IH have "includesString cs sub" by blast
      then show ?thesis by simp
    qed
  qed
qed

lemma includesString_char: "includesString s [c] \<longleftrightarrow> c \<in> set s"
  by (induction s) auto

lemma splitOn_unfold:
  "splitOn sep s =
     takeWhile (\<lambda>c. c \<noteq> sep) s #
       (case dropWhile (\<lambda>c. c \<noteq> sep) s of [] \<Rightarrow> [] | _ # r \<Rightarrow> splitOn sep r)"
  by (induction s) (auto split: list.splits)

lemma splitOn_second:
  assumes "sep \<in> set s"
  shows "\<exists>a rest. splitOn sep s =
           a # takeWhile (\<lambda>c. c \<noteq> sep) (tl (dropWhile (\<lambda>c. c \<noteq> sep) s)) # rest"
proof -
  from assms have "dropWhile (\<lambda>c. c \<noteq> sep) s \<noteq> []" by (simp add: dropWhile_eq_Nil_conv) 
  then obtain x r where d: "dropWhile (\<lambda>c. c \<noteq> sep) s = x # r" by (cases "dropWhile (\<lambda>c. c \<noteq> sep) s") auto
  have "splitOn sep s = takeWhile (\<lambda>c. c \<noteq> sep) s # splitOn sep r"
    by (subst splitOn_unfold) (simp add: d)
  also have "splitOn sep r = takeWhile (\<lambda>c. c \<noteq> sep) r #
       (case dropWhile (\<lambda>c. c \<noteq> sep) r of [] \<Rightarrow> [] | _ # r' \<Rightarrow> splitOn sep r')"
    by (rule splitOn_unfold)
  finally show ?thesis by (simp add: d)
qed

section \<open>The string-matching entry point: parsing and routing\<close>

lemma parseResponseForData_eq:
  "parseResponseForData numberText c =
     Inr (if includesString (contentString numberText c) ''business name''
             \<and> includesString (contentString numberText c) '':''
          then [(''businessName'',
                 JString (trim (takeWhile (\<lambda>x. x \<noteq> CHR '':'')
                                  (tl (dropWhile (\<lambda>x. x \<noteq> CHR '':'')
                                         (contentString numberText c))))))]
          else [])"
proof (cases "includesString (contentString numberText c) ''business name''
             \<and> includesString (contentString numberText c) '':''")
  case True
  then have "CHR '':'' \<in> set (contentString numberText c)"
    by (simp add: includesString_char)
  from splitOn_second [OF this] obtain a rest where
    "splitOn (CHR '':'') (contentString numberText c) =
       a # takeWhile (\<lambda>x. x \<noteq> CHR '':'')
             (tl (dropWhile (\<lambda>x. x \<noteq> CHR '':'') (contentString numberText c))) # rest"
    by blast
  with True show ?thesis by (simp add: parseResponseForData_def)
next
  case False
  then show ?thesis by (auto simp add: parseResponseForData_def)
qed

lemma parseResponseForData_Inr: "parseResponseForData nt c \<noteq> Inl e"
  by (simp add: parseResponseForData_eq)


lemma chatbot_route: "chatbot_shouldContinue state = ''__end__''"
  by (simp add: chatbot_shouldContinue_def Let_def)

text \<open>
  C2.  In the string-matching entry point the routing function \<^verbatim>\<open>shouldContinue\<close>
  answers with the end marker \<^verbatim>\<open>__end__\<close> in every state, whether or not the collected
  \<open>onboardingData\<close> is complete.
\<close>

theorem chatbot_shouldContinue_always_ends: "chatbot_shouldContinue state = ''__end__''"
  by (simp add: chatbot_shouldContinue_def Let_def)

section \<open>One run of a graph\<close>

lemma chatbot_workflow_end: "chatbot_workflow nt M n ''__end__'' s = (None, s)"
  by (cases n) simp_all

lemma instructor_workflow_end: "instructor_workflow F M n ''__end__'' s = (None, s)"
  by (cases n) simp_all

lemma recursionLimit_Suc: "\<exists>n. recursionLimit = Suc (Suc n)"
  by (rule exI [of _ 23]) (simp add: recursionLimit_def)

lemma chatbot_invoke_eq:
  "chatbot_invoke nt M s input =
     (let s1 = chatbot_reduce s input;
          call = chatbot_systemMessage nt (onboardingData s1) # messages s1;
          s2 = s1\<lparr>invocations := invocations s1 @ [call]\<rparr>
      in case M call of
           Inl e \<Rightarrow> (Some e, s2)
         | Inr (c, calls) \<Rightarrow>
             (case parseResponseForData nt c of
                Inl e \<Rightarrow> (Some e, s2)
              | Inr newData \<Rightarrow> (None, chatbot_reduce s2 ([AIMessage c calls], newData))))"
proof -
  from recursionLimit_Suc obtain n where n: "recursionLimit = Suc (Suc n)" ..
  show ?thesis
    unfolding chatbot_invoke_def n
    by (simp add: chatbot_callModel_def Let_def chatbot_route
        chatbot_workflow_end split: sum.splits prod.splits)
qed

lemma instructor_invoke_eq:
  "instructor_invoke F M s input =
     (let s1 = instructor_reduce s input;
          call = instructor_systemMessage # messages s1;
          s2 = s1\<lparr>invocations := invocations s1 @ [call]\<rparr>
      in case M call of
           Inl e \<Rightarrow> (Some e, s2)
         | Inr (c, calls) \<Rightarrow>
             (if calls = [] then (None, instructor_reduce s2 [AIMessage c calls])
              else (None, (instructor_reduce s2 (AIMessage c calls # fst (runTools F calls (isCompleted s2))))
                            \<lparr>isCompleted := snd (runTools F calls (isCompleted s2))\<rparr>)))"
proof -
  from recursionLimit_Suc obtain n where n: "recursionLimit = Suc (Suc n)" ..
  show ?thesis
    unfolding instructor_invoke_def n
    by (simp add: instructor_callModel_def Let_def
        instructor_workflow_end instructor_shouldContinue_def lastMessage_def
        toolNodeForGraph_def instructor_reduce_def
        split: sum.splits prod.splits)
qed

lemma noSystem_append [simp]: "noSystem (xs @ ys) \<longleftrightarrow> noSystem xs \<and> noSystem ys"
  by (simp add: noSystem_def)

lemma noSystem_Nil [simp]: "noSystem []"
  by (simp add: noSystem_def)

lemma noSystem_Cons [simp]: "noSystem (m # ms) \<longleftrightarrow> \<not> isSystem m \<and> noSystem ms"
  by (simp add: noSystem_def)

lemma isSystem_simps [simp]:
  "isSystem (SystemMessage t)" "\<not> isSystem (HumanMessage t)"
  "\<not> isSystem (AIMessage c calls)" "\<not> isSystem (ToolMessage n r)"
  by (simp_all add: isSystem_def)

lemma isSystem_instructor [simp]: "isSystem instructor_systemMessage"
  by (simp add: instructor_systemMessage_def)

lemma isSystem_chatbot [simp]: "isSystem (chatbot_systemMessage nt d)"
  by (simp add: chatbot_systemMessage_def)

lemma noSystem_runTools: "noSystem (fst (runTools F calls flag))"
  by (induction calls arbitrary: flag) (simp_all add: Let_def case_prod_beta)

lemma filter_noSystem: "noSystem h \<Longrightarrow> filter isSystem h = []"
  by (induction h) simp_all

lemma instructor_invoke_invocations:
  "invocations (snd (instructor_invoke F M s input)) = invocations s @ [instructor_call s input]"
  by (simp add: instructor_invoke_eq instructor_call_def instructor_reduce_def Let_def
        split: sum.splits prod.splits)

lemma instructor_invoke_error:
  "fst (instructor_invoke F M s input) =
     (case M (instructor_call s input) of Inl e \<Rightarrow> Some e | Inr r \<Rightarrow> None)"
  by (simp add: instructor_invoke_eq instructor_call_def instructor_reduce_def Let_def
        split: sum.splits prod.splits)

lemma instructor_invoke_messages:
  "\<exists>ext. messages (snd (instructor_invoke F M s input)) = messages s @ input @ ext \<and> noSystem ext"
  by (simp add: instructor_invoke_eq instructor_reduce_def Let_def noSystem_runTools
        split: sum.splits prod.splits)

lemma chatbot_invoke_invocations:
  "invocations (snd (chatbot_invoke nt M s input)) = invocations s @ [chatbot_call nt s input]"
  by (simp add: chatbot_invoke_eq chatbot_call_def chatbot_reduce_def Let_def
        parseResponseForData_eq split: sum.splits prod.splits)

lemma chatbot_invoke_error:
  "fst (chatbot_invoke nt M s input) =
     (case M (chatbot_call nt s input) of Inl e \<Rightarrow> Some e | Inr r \<Rightarrow> None)"
  by (simp add: chatbot_invoke_eq chatbot_call_def chatbot_reduce_def Let_def
        parseResponseForData_eq split: sum.splits prod.splits)

lemma chatbot_invoke_messages:
  "\<exists>ext. messages (snd (chatbot_invoke nt M s input)) = messages s @ fst input @ ext \<and> noSystem ext"
  by (simp add: chatbot_invoke_eq chatbot_reduce_def Let_def
        parseResponseForData_eq split: sum.splits prod.splits)

lemma spread_Nil: "spread d [] = d"
  by (simp add: spread_def)

section \<open>The loops\<close>

text \<open>Both loops only ever extend the transcript and the record of invocations.\<close>

lemma instructor_loop_messages:
  "prefix (messages s) (messages (snd (instructor_loop F M s ls)))"
proof (induction ls arbitrary: s)
  case Nil
  show ?case by simp
next
  case (Cons l ls)
  obtain r s' where inv: "instructor_invoke F M s [HumanMessage l] = (r, s')"
    by (cases "instructor_invoke F M s [HumanMessage l]")
  from instructor_invoke_messages [of F M s "[HumanMessage l]"] inv
  have step: "prefix (messages s) (messages s')" by auto
  from Cons.IH [of s'] step have "prefix (messages s) (messages (snd (instructor_loop F M s' ls)))"
    by (rule prefix_order.trans [rotated])
  with step inv show ?case by (simp split: option.splits)
qed

lemma chatbot_loop_messages:
  "prefix (messages s) (messages (snd (chatbot_loop nt M s ls)))"
proof (induction ls arbitrary: s)
  case Nil
  show ?case by simp
next
  case (Cons l ls)
  obtain r s' where inv: "chatbot_invoke nt M s ([HumanMessage l], []) = (r, s')"
    by (cases "chatbot_invoke nt M s ([HumanMessage l], [])")
  from chatbot_invoke_messages [of nt M s "([HumanMessage l], [])"] inv
  have step: "prefix (messages s) (messages s')" by auto
  from Cons.IH [of s'] step have "prefix (messages s) (messages (snd (chatbot_loop nt M s' ls)))"
    by (rule prefix_order.trans [rotated])
  with step inv show ?case by (simp split: option.splits)
qed

lemma instructor_loop_invocations:
  "prefix (invocations s) (invocations (snd (instructor_loop F M s ls)))"
proof (induction ls arbitrary: s)
  case Nil
  show ?case by simp
next
  case (Cons l ls)
  obtain r s' where inv: "instructor_invoke F M s [HumanMessage l] = (r, s')"
    by (cases "instructor_invoke F M s [HumanMessage l]")
  from instructor_invoke_invocations [of F M s "[HumanMessage l]"] inv
  have step: "prefix (invocations s) (invocations s')" by auto
  from Cons.IH [of s'] step
  have "prefix (invocations s) (invocations (snd (instructor_loop F M s' ls)))"
    by (rule prefix_order.trans [rotated])
  with step inv show ?case by (simp split: option.splits)
qed


text \<open>
  C8.  The transcript is append-only.  The reducer of \<open>messages\<close> is concatenation in both
  entry points, so the transcript before an update, before a run of the graph, and before
  any number of turns of the loop is a prefix of the transcript after it: nothing is
  removed or reordered.
\<close>

theorem transcript_append_only:
  "messages (chatbot_reduce s u) = messages s @ fst u
   \<and> messages (instructor_reduce t v) = messages t @ v
   \<and> prefix (messages s) (messages (snd (chatbot_invoke nt M s u)))
   \<and> prefix (messages t) (messages (snd (instructor_invoke F M t v)))
   \<and> prefix (messages s) (messages (snd (chatbot_loop nt M s ls)))
   \<and> prefix (messages t) (messages (snd (instructor_loop F M t ls)))"
proof -
  from chatbot_invoke_messages [of nt M s u]
  have "prefix (messages s) (messages (snd (chatbot_invoke nt M s u)))" by auto
  moreover from instructor_invoke_messages [of F M t v]
  have "prefix (messages t) (messages (snd (instructor_invoke F M t v)))" by auto
  ultimately show ?thesis
    by (simp add: chatbot_reduce_def instructor_reduce_def chatbot_loop_messages
          instructor_loop_messages)
qed

lemma instructor_seed:
  "invocations (snd (instructor_invoke F M instructor_initial [HumanMessage ''Start onboarding'']))
     = [ [instructor_systemMessage, HumanMessage ''Start onboarding'']]"
  by (simp add: instructor_invoke_invocations instructor_call_def instructor_initial_def)

text \<open>
  C10.  In the tool-calling entry point the first invocation of every run is the one
  seeded with \<^verbatim>\<open>Start onboarding\<close>, whatever the user types and even when nothing is
  typed; when the first line is the exit sentinel it is the only invocation.
\<close>

theorem seed_invocation_precedes_input:
  "take 1 (invocations (snd (instructor_main F M input)))
     = [ [instructor_systemMessage, HumanMessage ''Start onboarding'']]
   \<and> invocations (snd (instructor_main F M (''exit'' # rest)))
     = [ [instructor_systemMessage, HumanMessage ''Start onboarding'']]"
proof -
  let ?seed = "[HumanMessage ''Start onboarding'']"
  obtain r s where inv: "instructor_invoke F M instructor_initial ?seed = (r, s)"
    by (cases "instructor_invoke F M instructor_initial ?seed")
  with instructor_seed [of F M]
  have s: "invocations s = [ [instructor_systemMessage, HumanMessage ''Start onboarding'']]"
    by simp
  have "take 1 (invocations (snd (instructor_loop F M s input))) = invocations s"
    using instructor_loop_invocations [of s F M input] by (auto simp: s prefix_def)
  with s inv show ?thesis
    by (simp add: instructor_main_def toLowerCase_exit split: option.splits)
qed


section \<open>Concrete runs\<close>

lemma includesString_Hello:
  "\<not> includesString ''Hello'' ''business name''"
  by simp

lemma failing_instructor_run:
  "instructor_main anyFormat failingModel [''hi'', ''there'']
     = (Crashed (ServiceFailure ''overloaded''),
        \<lparr>messages = [HumanMessage ''Start onboarding'', AIMessage (Text ''Hello'') [],
                      HumanMessage ''hi''],
         invocations = [ [instructor_systemMessage, HumanMessage ''Start onboarding''],
                        [instructor_systemMessage, HumanMessage ''Start onboarding'',
                         AIMessage (Text ''Hello'') [], HumanMessage ''hi'']],
         isCompleted = False\<rparr>)"
  by (simp add: instructor_main_def instructor_invoke_eq instructor_reduce_def
        instructor_initial_def failingModel_def toLowerCase_hi Let_def)

lemma failing_chatbot_run:
  "chatbot_main noNumberText failingModel [''hi'', ''there'']
     = (Crashed (ServiceFailure ''overloaded''),
        \<lparr>messages = [HumanMessage ''hi'', AIMessage (Text ''Hello'') [], HumanMessage ''there''],
         invocations = [ [chatbot_systemMessage noNumberText [], HumanMessage ''hi''],
                        [chatbot_systemMessage noNumberText [], HumanMessage ''hi'',
                         AIMessage (Text ''Hello'') [], HumanMessage ''there'']],
         onboardingData = []\<rparr>)"
  by (simp add: chatbot_main_def chatbot_invoke_eq chatbot_reduce_def chatbot_initial_def
        failingModel_def toLowerCase_hi toLowerCase_there Let_def spread_Nil parseResponseForData_eq
        contentString_def)

lemma trim_Acme: "trim '' Acme'' = ''Acme''"
  by (simp add: trim_def isWhiteSpace_def)

lemma parse_naming:
  "parseResponseForData nt (Text ''business name: Acme'') = Inr [(''businessName'', JString ''Acme'')]"
  by (simp add: parseResponseForData_eq contentString_def trim_Acme)

lemma assign_businessName:
  "spread [] [(''businessName'', v)] = [(''businessName'', v)]"
  "spread [(''businessName'', v)] [(''businessName'', w)] = [(''businessName'', w)]"
  by (simp_all add: spread_def assign_def)

lemma naming_chatbot_run:
  "invocations (snd (chatbot_main noNumberText namingModel [''hi'', ''there'']))
     = [ [chatbot_systemMessage noNumberText [], HumanMessage ''hi''],
        [chatbot_systemMessage noNumberText [(''businessName'', JString ''Acme'')],
         HumanMessage ''hi'', AIMessage (Text ''business name: Acme'') [],
         HumanMessage ''there'']]"
  by (simp add: chatbot_main_def chatbot_invoke_eq chatbot_reduce_def chatbot_initial_def
        namingModel_def toLowerCase_hi toLowerCase_there Let_def spread_Nil parse_naming assign_businessName)

lemma chatbot_systemMessage_inject:
  "chatbot_systemMessage nt d = chatbot_systemMessage nt d'
    \<longleftrightarrow> stringify nt ''  '' [] (JObject d) = stringify nt ''  '' [] (JObject d')"
  by (simp add: chatbot_systemMessage_def)

lemma eager_seed:
  "instructor_invoke anyFormat eagerModel instructor_initial [HumanMessage ''Start onboarding'']
     = (None,
        \<lparr>messages = [HumanMessage ''Start onboarding'',
                      AIMessage (Blocks []) [ToolCall ''complete'' examplePayload],
                      ToolMessage ''complete'' (Inr examplePayload)],
         invocations = [ [instructor_systemMessage, HumanMessage ''Start onboarding'']],
         isCompleted = True\<rparr>)"
  by (simp add: instructor_invoke_eq instructor_reduce_def instructor_initial_def
        eagerModel_def Let_def onboardingCompleted_def examplePayload_valid anyFormat_def)


section \<open>What is sent to the completion service\<close>

lemma sentOk_step:
  assumes "sentOk P calls transcript" and "P m" and "isSystem m"
    and "noSystem input" and "noSystem ext"
  shows "sentOk P (calls @ [m # transcript @ input]) (transcript @ input @ ext)"
proof -
  have "\<exists>m' h. c = m' # h \<and> P m' \<and> isSystem m' \<and> noSystem h \<and> prefix h (transcript @ input @ ext)"
    if "c \<in> set (calls @ [m # transcript @ input])" for c
  proof (cases "c \<in> set calls")
    case True
    with assms(1) obtain m' h where
      "c = m' # h" "P m'" "isSystem m'" "noSystem h" "prefix h transcript"
      unfolding sentOk_def by blast
    moreover from this have "prefix h (transcript @ input @ ext)"
      by (simp add: prefix_prefix)
    ultimately show ?thesis by blast
  next
    case False
    with that have c: "c = m # (transcript @ input)" by simp
    from assms(1) have "noSystem transcript" by (simp add: sentOk_def)
    with assms(4) have "noSystem (transcript @ input)" by simp
    moreover have "prefix (transcript @ input) (transcript @ input @ ext)" by simp
    ultimately show ?thesis using c assms(2,3) by blast
  qed
  moreover from assms have "noSystem (transcript @ input @ ext)"
    by (simp add: sentOk_def)
  ultimately show ?thesis unfolding sentOk_def by blast
qed

lemma instructor_invoke_sentOk:
  assumes "sentOk (\<lambda>m. m = instructor_systemMessage) (invocations s) (messages s)"
    and "noSystem input"
  shows "sentOk (\<lambda>m. m = instructor_systemMessage)
           (invocations (snd (instructor_invoke F M s input)))
           (messages (snd (instructor_invoke F M s input)))"
proof -
  from instructor_invoke_messages [of F M s input] obtain ext where
    "messages (snd (instructor_invoke F M s input)) = messages s @ input @ ext" "noSystem ext"
    by blast
  with sentOk_step [OF assms(1) refl isSystem_instructor assms(2), of ext] show ?thesis
    by (simp add: instructor_invoke_invocations instructor_call_def)
qed

lemma chatbot_invoke_sentOk:
  assumes "sentOk (\<lambda>m. \<exists>d. m = chatbot_systemMessage nt d) (invocations s) (messages s)"
    and "noSystem (fst input)"
  shows "sentOk (\<lambda>m. \<exists>d. m = chatbot_systemMessage nt d)
           (invocations (snd (chatbot_invoke nt M s input)))
           (messages (snd (chatbot_invoke nt M s input)))"
proof -
  from chatbot_invoke_messages [of nt M s input] obtain ext where
    "messages (snd (chatbot_invoke nt M s input)) = messages s @ fst input @ ext" "noSystem ext"
    by blast
  moreover have "\<exists>d. chatbot_systemMessage nt (spread (onboardingData s) (snd input))
                   = chatbot_systemMessage nt d" by blast
  ultimately show ?thesis
    using sentOk_step [OF assms(1) _ isSystem_chatbot assms(2), of nt "spread (onboardingData s) (snd input)" ext]
    by (simp add: chatbot_invoke_invocations chatbot_call_def)
qed

lemma instructor_loop_sentOk:
  assumes "sentOk (\<lambda>m. m = instructor_systemMessage) (invocations s) (messages s)"
  shows "sentOk (\<lambda>m. m = instructor_systemMessage)
           (invocations (snd (instructor_loop F M s ls)))
           (messages (snd (instructor_loop F M s ls)))"
  using assms
proof (induction ls arbitrary: s)
  case Nil
  then show ?case by simp
next
  case (Cons l ls)
  obtain r s' where inv: "instructor_invoke F M s [HumanMessage l] = (r, s')"
    by (cases "instructor_invoke F M s [HumanMessage l]")
  from instructor_invoke_sentOk [OF Cons.prems, of "[HumanMessage l]" F M] inv
  have s': "sentOk (\<lambda>m. m = instructor_systemMessage) (invocations s') (messages s')"
    by simp
  from Cons.IH [OF s'] s' Cons.prems inv show ?case
    by (simp split: option.splits)
qed

lemma chatbot_loop_sentOk:
  assumes "sentOk (\<lambda>m. \<exists>d. m = chatbot_systemMessage nt d) (invocations s) (messages s)"
  shows "sentOk (\<lambda>m. \<exists>d. m = chatbot_systemMessage nt d)
           (invocations (snd (chatbot_loop nt M s ls)))
           (messages (snd (chatbot_loop nt M s ls)))"
  using assms
proof (induction ls arbitrary: s)
  case Nil
  then show ?case by simp
next
  case (Cons l ls)
  obtain r s' where inv: "chatbot_invoke nt M s ([HumanMessage l], []) = (r, s')"
    by (cases "chatbot_invoke nt M s ([HumanMessage l], [])")
  from chatbot_invoke_sentOk [OF Cons.prems, of "([HumanMessage l], [])" M] inv
  have s': "sentOk (\<lambda>m. \<exists>d. m = chatbot_systemMessage nt d) (invocations s') (messages s')"
    by simp
  from Cons.IH [OF s'] s' Cons.prems inv show ?case
    by (simp split: option.splits)
qed

lemma sentOk_initial: "sentOk P [] []"
  by (simp add: sentOk_def)

lemma instructor_main_sentOk:
  "sentOk (\<lambda>m. m = instructor_systemMessage)
     (invocations (snd (instructor_main F M input)))
     (messages (snd (instructor_main F M input)))"
proof -
  obtain r s where inv:
    "instructor_invoke F M instructor_initial [HumanMessage ''Start onboarding''] = (r, s)"
    by (cases "instructor_invoke F M instructor_initial [HumanMessage ''Start onboarding'']")
  have "sentOk (\<lambda>m. m = instructor_systemMessage)
          (invocations instructor_initial) (messages instructor_initial)"
    by (simp add: instructor_initial_def sentOk_initial)
  from instructor_invoke_sentOk [OF this, of "[HumanMessage ''Start onboarding'']" F M] inv
  have s: "sentOk (\<lambda>m. m = instructor_systemMessage) (invocations s) (messages s)"
    by simp
  from instructor_loop_sentOk [OF s] s inv show ?thesis
    by (simp add: instructor_main_def split: option.splits)
qed

lemma chatbot_main_sentOk:
  "sentOk (\<lambda>m. \<exists>d. m = chatbot_systemMessage nt d)
     (invocations (snd (chatbot_main nt M input)))
     (messages (snd (chatbot_main nt M input)))"
  unfolding chatbot_main_def
  by (rule chatbot_loop_sentOk) (simp add: chatbot_initial_def sentOk_initial)

text \<open>
  C5, as amended.  Every run of a graph makes one invocation: one system message followed
  by the whole stored transcript and the new input.  Hence every invocation of a run of
  either program is a system message, occurring once, followed by an initial segment of
  the final transcript.  In the tool-calling entry point the system message is the same
  at every invocation; in the string-matching entry point it is built from a fixed
  template and the \<open>onboardingData\<close> collected so far.
\<close>

theorem system_message_before_full_history:
  "invocations (snd (instructor_invoke F M t v))
     = invocations t @ [instructor_systemMessage # messages t @ v]
   \<and> invocations (snd (chatbot_invoke nt M s u))
     = invocations s @ [chatbot_systemMessage nt (spread (onboardingData s) (snd u))
                         # messages s @ fst u]
   \<and> (\<forall>c \<in> set (invocations (snd (instructor_main F M input))).
         \<exists>h. c = instructor_systemMessage # h \<and> length (filter isSystem c) = 1
            \<and> prefix h (messages (snd (instructor_main F M input))))
   \<and> (\<forall>c \<in> set (invocations (snd (chatbot_main nt M input))).
         \<exists>d h. c = chatbot_systemMessage nt d # h \<and> length (filter isSystem c) = 1
            \<and> prefix h (messages (snd (chatbot_main nt M input))))"
proof -
  have "\<exists>h. c = instructor_systemMessage # h \<and> length (filter isSystem c) = 1
            \<and> prefix h (messages (snd (instructor_main F M input)))"
    if "c \<in> set (invocations (snd (instructor_main F M input)))" for c
  proof -
    from instructor_main_sentOk [of F M input] that obtain h where
      "c = instructor_systemMessage # h" "noSystem h"
      "prefix h (messages (snd (instructor_main F M input)))"
      unfolding sentOk_def by blast
    then show ?thesis by (simp add: filter_noSystem)
  qed
  moreover have "\<exists>d h. c = chatbot_systemMessage nt d # h \<and> length (filter isSystem c) = 1
            \<and> prefix h (messages (snd (chatbot_main nt M input)))"
    if "c \<in> set (invocations (snd (chatbot_main nt M input)))" for c
  proof -
    from chatbot_main_sentOk [of nt M input] that obtain d h where
      "c = chatbot_systemMessage nt d # h" "noSystem h"
      "prefix h (messages (snd (chatbot_main nt M input)))"
      unfolding sentOk_def by blast
    then show ?thesis by (auto simp add: filter_noSystem)
  qed
  ultimately show ?thesis
    by (simp add: instructor_invoke_invocations instructor_call_def
          chatbot_invoke_invocations chatbot_call_def)
qed

theorem system_message_before_full_history_witness:
  "[instructor_systemMessage, HumanMessage ''Start onboarding'']
      \<in> set (invocations (snd (instructor_main anyFormat failingModel [''hi'', ''there''])))
   \<and> [chatbot_systemMessage noNumberText [], HumanMessage ''hi'']
      \<in> set (invocations (snd (chatbot_main noNumberText failingModel [''hi'', ''there''])))
   \<and> (\<exists>h. [instructor_systemMessage, HumanMessage ''Start onboarding''] = instructor_systemMessage # h
         \<and> length (filter isSystem [instructor_systemMessage, HumanMessage ''Start onboarding'']) = 1
         \<and> prefix h (messages (snd (instructor_main anyFormat failingModel [''hi'', ''there'']))))
   \<and> (\<exists>d h. [chatbot_systemMessage noNumberText [], HumanMessage ''hi''] = chatbot_systemMessage noNumberText d # h
         \<and> length (filter isSystem [chatbot_systemMessage noNumberText [], HumanMessage ''hi'']) = 1
         \<and> prefix h (messages (snd (chatbot_main noNumberText failingModel [''hi'', ''there'']))))"
proof -
  have i: "[instructor_systemMessage, HumanMessage ''Start onboarding'']
      \<in> set (invocations (snd (instructor_main anyFormat failingModel [''hi'', ''there''])))"
    by (simp add: failing_instructor_run)
  have c: "[chatbot_systemMessage noNumberText [], HumanMessage ''hi'']
      \<in> set (invocations (snd (chatbot_main noNumberText failingModel [''hi'', ''there''])))"
    by (simp add: failing_chatbot_run)
  from i c
    system_message_before_full_history [of anyFormat failingModel _ _ noNumberText _ _
      "[''hi'', ''there'']"]
  show ?thesis by blast
qed

text \<open>
  C5 as stated fails in the string-matching entry point: once the model has answered
  \<^verbatim>\<open>business name: Acme\<close>, the second invocation carries another system message than
  the first.
\<close>

theorem fixed_system_instruction_counterexample:
  "map hd (invocations (snd (chatbot_main noNumberText namingModel [''hi'', ''there''])))
     = [chatbot_systemMessage noNumberText [],
        chatbot_systemMessage noNumberText [(''businessName'', JString ''Acme'')]]
   \<and> chatbot_systemMessage noNumberText []
       \<noteq> chatbot_systemMessage noNumberText [(''businessName'', JString ''Acme'')]"
  by (simp add: naming_chatbot_run chatbot_systemMessage_inject wrap_def)

section \<open>Failure of the completion service\<close>

lemma served_snoc: "served M (cs @ [c]) \<longleftrightarrow> served M cs \<and> (\<forall>e. M c \<noteq> Inl e)"
  by (auto simp: served_def)

lemma failFast_last:
  assumes "failFast M out cs" and "i < length cs" and "M (cs ! i) = Inl e"
  shows "Suc i = length cs \<and> out = Crashed e"
proof (cases out)
  case (Crashed e')
  with assms(1) obtain cs' c where cs: "cs = cs' @ [c]" and s: "served M cs'" and c: "M c = Inl e'"
    by (auto simp: failFast_def)
  have "\<not> i < length cs'"
  proof
    assume "i < length cs'"
    then have "cs ! i \<in> set cs'" by (simp add: cs nth_append)
    with s assms(3) show False by (simp add: served_def)
  qed
  with assms(2) have i: "i = length cs'" by (simp add: cs)
  with assms(3) c have "e' = e" by (simp add: cs)
  with i Crashed show ?thesis by (simp add: cs)
next
  case Exited
  with assms(1) have "served M cs" by (simp add: failFast_def)
  with assms(2,3) show ?thesis by (auto simp: served_def)
next
  case Completed
  with assms(1) have "served M cs" by (simp add: failFast_def)
  with assms(2,3) show ?thesis by (auto simp: served_def)
next
  case InputClosed
  with assms(1) have "served M cs" by (simp add: failFast_def)
  with assms(2,3) show ?thesis by (auto simp: served_def)
qed

lemma instructor_loop_failFast:
  assumes "served M (invocations s)"
  shows "failFast M (fst (instructor_loop F M s ls)) (invocations (snd (instructor_loop F M s ls)))"
  using assms
proof (induction ls arbitrary: s)
  case Nil
  then show ?case by (simp add: failFast_def)
next
  case (Cons l ls)
  show ?case
  proof (cases "toLowerCase l = ''exit''")
    case True
    with Cons.prems show ?thesis by (simp add: failFast_def)
  next
    case False
    obtain r s' where inv: "instructor_invoke F M s [HumanMessage l] = (r, s')"
      by (cases "instructor_invoke F M s [HumanMessage l]")
    from instructor_invoke_invocations [of F M s "[HumanMessage l]"] inv
    have calls: "invocations s' = invocations s @ [instructor_call s [HumanMessage l]]" by simp
    from instructor_invoke_error [of F M s "[HumanMessage l]"] inv
    have r: "r = (case M (instructor_call s [HumanMessage l]) of Inl e \<Rightarrow> Some e | Inr x \<Rightarrow> None)"
      by simp
    show ?thesis
    proof (cases "M (instructor_call s [HumanMessage l])")
      case (Inl e)
      with r False inv calls Cons.prems show ?thesis
        by (auto simp: failFast_def)
    next
      case (Inr x)
      with calls Cons.prems have "served M (invocations s')" by (simp add: served_snoc)
      from Cons.IH [OF this] this Inr r False inv show ?thesis
        by (simp add: failFast_def)
    qed
  qed
qed

lemma chatbot_loop_failFast:
  assumes "served M (invocations s)"
  shows "failFast M (fst (chatbot_loop nt M s ls)) (invocations (snd (chatbot_loop nt M s ls)))"
  using assms
proof (induction ls arbitrary: s)
  case Nil
  then show ?case by (simp add: failFast_def)
next
  case (Cons l ls)
  show ?case
  proof (cases "toLowerCase l = ''exit''")
    case True
    with Cons.prems show ?thesis by (simp add: failFast_def)
  next
    case False
    obtain r s' where inv: "chatbot_invoke nt M s ([HumanMessage l], []) = (r, s')"
      by (cases "chatbot_invoke nt M s ([HumanMessage l], [])")
    from chatbot_invoke_invocations [of nt M s "([HumanMessage l], [])"] inv
    have calls: "invocations s' = invocations s @ [chatbot_call nt s ([HumanMessage l], [])]"
      by simp
    from chatbot_invoke_error [of nt M s "([HumanMessage l], [])"] inv
    have r: "r = (case M (chatbot_call nt s ([HumanMessage l], [])) of
                    Inl e \<Rightarrow> Some e | Inr x \<Rightarrow> None)"
      by simp
    show ?thesis
    proof (cases "M (chatbot_call nt s ([HumanMessage l], []))")
      case (Inl e)
      with r False inv calls Cons.prems show ?thesis
        by (auto simp: failFast_def)
    next
      case (Inr x)
      with calls Cons.prems have "served M (invocations s')" by (simp add: served_snoc)
      from Cons.IH [OF this] this Inr r False inv show ?thesis
        by (simp add: failFast_def)
    qed
  qed
qed

lemma instructor_main_failFast:
  "failFast M (fst (instructor_main F M input)) (invocations (snd (instructor_main F M input)))"
proof -
  let ?seed = "[HumanMessage ''Start onboarding'']"
  obtain r s where inv: "instructor_invoke F M instructor_initial ?seed = (r, s)"
    by (cases "instructor_invoke F M instructor_initial ?seed")
  from instructor_invoke_invocations [of F M instructor_initial ?seed] inv
  have calls: "invocations s = [instructor_call instructor_initial ?seed]"
    by (simp add: instructor_initial_def)
  from instructor_invoke_error [of F M instructor_initial ?seed] inv
  have r: "r = (case M (instructor_call instructor_initial ?seed) of
                  Inl e \<Rightarrow> Some e | Inr x \<Rightarrow> None)"
    by simp
  show ?thesis
  proof (cases "M (instructor_call instructor_initial ?seed)")
    case (Inl e)
    with r inv calls show ?thesis
      by (simp add: instructor_main_def failFast_def served_def)
  next
    case (Inr x)
    with calls have "served M (invocations s)" by (simp add: served_def)
    from instructor_loop_failFast [OF this] Inr r inv show ?thesis
      by (simp add: instructor_main_def)
  qed
qed

lemma chatbot_main_failFast:
  "failFast M (fst (chatbot_main nt M input)) (invocations (snd (chatbot_main nt M input)))"
  unfolding chatbot_main_def
  by (rule chatbot_loop_failFast) (simp add: chatbot_initial_def served_def)

text \<open>
  C6.  In both entry points a failure of the completion service is fatal.  Whenever an
  invocation recorded in a run failed, it is the last invocation of the run (nothing is
  retried and nothing is invoked afterwards), \<^verbatim>\<open>main\<close> ends with that failure, and the
  handler at the top level logs it.
\<close>

theorem service_failure_is_fatal:
  "(\<forall>i e. i < length (invocations (snd (instructor_main F M input)))
          \<and> M (invocations (snd (instructor_main F M input)) ! i) = Inl e
      \<longrightarrow> Suc i = length (invocations (snd (instructor_main F M input)))
          \<and> fst (instructor_main F M input) = Crashed e
          \<and> errorLog (fst (instructor_main F M input)) = [(''An error occurred:'', e)])
   \<and> (\<forall>i e. i < length (invocations (snd (chatbot_main nt M input)))
          \<and> M (invocations (snd (chatbot_main nt M input)) ! i) = Inl e
      \<longrightarrow> Suc i = length (invocations (snd (chatbot_main nt M input)))
          \<and> fst (chatbot_main nt M input) = Crashed e
          \<and> errorLog (fst (chatbot_main nt M input)) = [(''An error occurred:'', e)])"
  using failFast_last [OF instructor_main_failFast [of M F input]]
        failFast_last [OF chatbot_main_failFast [of M nt input]]
  by auto

text \<open>A service that fails from its second invocation on, in both programs.\<close>

theorem service_failure_is_fatal_witness:
  "(1 < length (invocations (snd (instructor_main anyFormat failingModel [''hi'', ''there''])))
     \<and> failingModel (invocations (snd (instructor_main anyFormat failingModel [''hi'', ''there''])) ! 1)
         = Inl (ServiceFailure ''overloaded''))
   \<and> (1 < length (invocations (snd (chatbot_main noNumberText failingModel [''hi'', ''there''])))
     \<and> failingModel (invocations (snd (chatbot_main noNumberText failingModel [''hi'', ''there''])) ! 1)
         = Inl (ServiceFailure ''overloaded''))
   \<and> length (invocations (snd (instructor_main anyFormat failingModel [''hi'', ''there'']))) = 2
   \<and> fst (instructor_main anyFormat failingModel [''hi'', ''there''])
       = Crashed (ServiceFailure ''overloaded'')
   \<and> errorLog (fst (instructor_main anyFormat failingModel [''hi'', ''there'']))
       = [(''An error occurred:'', ServiceFailure ''overloaded'')]
   \<and> length (invocations (snd (chatbot_main noNumberText failingModel [''hi'', ''there'']))) = 2
   \<and> fst (chatbot_main noNumberText failingModel [''hi'', ''there''])
       = Crashed (ServiceFailure ''overloaded'')
   \<and> errorLog (fst (chatbot_main noNumberText failingModel [''hi'', ''there'']))
       = [(''An error occurred:'', ServiceFailure ''overloaded'')]"
proof -
  have i: "1 < length (invocations (snd (instructor_main anyFormat failingModel [''hi'', ''there''])))
     \<and> failingModel (invocations (snd (instructor_main anyFormat failingModel [''hi'', ''there''])) ! 1)
         = Inl (ServiceFailure ''overloaded'')"
    by (simp add: failing_instructor_run) (simp add: failingModel_def)
  have c: "1 < length (invocations (snd (chatbot_main noNumberText failingModel [''hi'', ''there''])))
     \<and> failingModel (invocations (snd (chatbot_main noNumberText failingModel [''hi'', ''there''])) ! 1)
         = Inl (ServiceFailure ''overloaded'')"
    by (simp add: failing_chatbot_run) (simp add: failingModel_def)
  from i c
    service_failure_is_fatal [of anyFormat failingModel "[''hi'', ''there'']" noNumberText]
  have "Suc 1 = length (invocations (snd (instructor_main anyFormat failingModel [''hi'', ''there''])))
     \<and> fst (instructor_main anyFormat failingModel [''hi'', ''there''])
         = Crashed (ServiceFailure ''overloaded'')
     \<and> errorLog (fst (instructor_main anyFormat failingModel [''hi'', ''there'']))
         = [(''An error occurred:'', ServiceFailure ''overloaded'')]
     \<and> Suc 1 = length (invocations (snd (chatbot_main noNumberText failingModel [''hi'', ''there''])))
     \<and> fst (chatbot_main noNumberText failingModel [''hi'', ''there''])
         = Crashed (ServiceFailure ''overloaded'')
     \<and> errorLog (fst (chatbot_main noNumberText failingModel [''hi'', ''there'']))
         = [(''An error occurred:'', ServiceFailure ''overloaded'')]"
    by blast
  with i c show ?thesis by simp
qed

section \<open>Completion and exit in the tool-calling entry point\<close>





text \<open>
  C4.  The completion flag is tested only at the end of the loop body.  For a model that
  completes the onboarding in its answer to the seed message the flag is true before the
  loop starts; the user is prompted all the same, and a line other than the sentinel
  leads to a second invocation before the loop ends.
\<close>

theorem completion_at_seed_then_invocation:
  "isCompleted (snd (instructor_invoke anyFormat eagerModel instructor_initial
                       [HumanMessage ''Start onboarding'']))
   \<and> length (invocations (snd (instructor_main anyFormat eagerModel [''hi'']))) = 2
   \<and> fst (instructor_main anyFormat eagerModel [''hi'']) = Completed"
  by (simp add: instructor_main_def eager_seed toLowerCase_hi)
     (simp add: instructor_invoke_eq instructor_reduce_def eagerModel_def Let_def
        onboardingCompleted_def examplePayload_valid anyFormat_def)

text \<open>Inside the loop the test does end the conversation right after the completing turn.\<close>

lemma completion_in_loop_stops:
  assumes "toLowerCase l \<noteq> ''exit''"
    and "instructor_invoke F M s [HumanMessage l] = (None, s')" and "isCompleted s'"
  shows "instructor_loop F M s (l # ls) = (Completed, s')"
  using assms by simp

end
